theory Spec2Isabelle
  imports Main "HOL-Library.Char_ord" "HOL-Library.List_Lexorder"
begin

section \<open>Python values used by the theme module\<close>

text \<open>
  The exceptions that the modelled statements can raise. \<open>IndexError\<close> comes from
  \<^verbatim>\<open>klass.__bases__[0]\<close> on an empty tuple, \<open>KeyError\<close> from subscripting a dict.
  \<open>ConfigurationError\<close> is the error named in the specification; no statement of
  \<^verbatim>\<open>theme.py\<close> raises it.
\<close>

datatype py_error = IndexError | KeyError | ConfigurationError

text \<open>
  A class object, as far as \<^verbatim>\<open>get_dict_for_class\<close> reads it: \<^verbatim>\<open>__name__\<close> and the tuple
  \<^verbatim>\<open>__bases__\<close>. A class is created after its bases, so the hierarchy is well founded;
  the root class (\<^verbatim>\<open>object\<close>) has the empty tuple.
\<close>

datatype klass = Klass (cls_name: string) (cls_bases: "klass list")

type_synonym 'v style = "string \<rightharpoonup> 'v"

type_synonym 'v styles = "string \<rightharpoonup> (string \<rightharpoonup> 'v style)"

text \<open>
  A \<^verbatim>\<open>Theme\<close> instance: \<^verbatim>\<open>self._styles\<close>, a dict from class name to a dict from state
  name to a dict from attribute key to value. Values are opaque.
\<close>

record 'v theme =
  styles :: "'v styles"

text \<open>\<^verbatim>\<open>d[k]\<close>: the value, or \<open>KeyError\<close>.\<close>

definition getitem :: "('k \<rightharpoonup> 'a) \<Rightarrow> 'k \<Rightarrow> py_error + 'a" where
  "getitem d k = (case d k of None \<Rightarrow> Inl KeyError | Some x \<Rightarrow> Inr x)"

text \<open>\<^verbatim>\<open>d.setdefault(k, v)\<close>: the value now stored under \<open>k\<close>, and the dict afterwards.\<close>

definition setdefault :: "('k \<rightharpoonup> 'a) \<Rightarrow> 'k \<Rightarrow> 'a \<Rightarrow> 'a \<times> ('k \<rightharpoonup> 'a)" where
  "setdefault d k v = (case d k of None \<Rightarrow> (v, d(k \<mapsto> v)) | Some x \<Rightarrow> (x, d))"

text \<open>
  \<^verbatim>\<open>try: x = <r> except KeyError: x = <dflt>\<close>: only \<open>KeyError\<close> is caught, any other
  exception propagates.
\<close>

fun except_KeyError :: "py_error + 'a \<Rightarrow> 'a \<Rightarrow> py_error + 'a" where
  "except_KeyError (Inr x) dflt = Inr x"
| "except_KeyError (Inl KeyError) dflt = Inr dflt"
| "except_KeyError (Inl e) dflt = Inl e"

section \<open>Theme.set, Theme.set_for_class\<close>

text \<open>
  \<^verbatim>\<open>self._styles.setdefault(class_name, {}).setdefault(state, {})\<close>
  \<^verbatim>\<open>self._styles[class_name][state][key] = value\<close>
  The inner dicts are mutated in place; the model writes them back into the outer one.
\<close>

definition set_style :: "string \<Rightarrow> string \<Rightarrow> string \<Rightarrow> 'v \<Rightarrow> 'v theme \<Rightarrow> py_error + 'v theme" where
  "set_style class_name state key val t =
     (let (c, s1) = setdefault (styles t) class_name Map.empty;
          (_, c1) = setdefault c state Map.empty;
          s2 = s1(class_name \<mapsto> c1)
      in case getitem s2 class_name of
           Inl e \<Rightarrow> Inl e
         | Inr c2 \<Rightarrow>
             (case getitem c2 state of
                Inl e \<Rightarrow> Inl e
              | Inr d \<Rightarrow> Inr (t\<lparr>styles := s2(class_name \<mapsto> c2(state \<mapsto> d(key \<mapsto> val)))\<rparr>)))"

text \<open>
  The body of the \<^verbatim>\<open>for\<close> loop of \<^verbatim>\<open>set_for_class\<close>, run over the already sorted list:
  \<^verbatim>\<open>self._styles[class_name].setdefault(state, {})\<close>
  \<^verbatim>\<open>self._styles[class_name][state][key] = value\<close>
\<close>

fun set_for_class_loop :: "string \<Rightarrow> (string \<times> string \<times> 'v) list \<Rightarrow> 'v theme \<Rightarrow> py_error + 'v theme" where
  "set_for_class_loop class_name [] t = Inr t"
| "set_for_class_loop class_name ((state, key, val) # params) t =
     (case getitem (styles t) class_name of
        Inl e \<Rightarrow> Inl e
      | Inr c \<Rightarrow>
          (let (_, c1) = setdefault c state Map.empty;
               s1 = (styles t)(class_name \<mapsto> c1)
           in case getitem s1 class_name of
                Inl e \<Rightarrow> Inl e
              | Inr c2 \<Rightarrow>
                  (case getitem c2 state of
                     Inl e \<Rightarrow> Inl e
                   | Inr d \<Rightarrow>
                       set_for_class_loop class_name params
                         (t\<lparr>styles := s1(class_name \<mapsto> c2(state \<mapsto> d(key \<mapsto> val)))\<rparr>))))"

text \<open>
  \<^verbatim>\<open>self._styles.setdefault(class_name, {})\<close>, then the loop over
  \<^verbatim>\<open>sorted(params, key=lambda x: x[0])\<close>. Python's \<^verbatim>\<open>sorted\<close> is stable, as is \<open>sort_key\<close>;
  states are strings, compared lexicographically.
\<close>

definition set_for_class :: "string \<Rightarrow> (string \<times> string \<times> 'v) list \<Rightarrow> 'v theme \<Rightarrow> py_error + 'v theme" where
  "set_for_class class_name params t =
     (let (_, s0) = setdefault (styles t) class_name Map.empty
      in set_for_class_loop class_name (sort_key fst params) (t\<lparr>styles := s0\<rparr>))"

text \<open>
  The comparison program of the refinement claim: one call of \<^verbatim>\<open>set\<close> for each tuple, in
  the order of the list as given.
\<close>

fun set_each :: "string \<Rightarrow> (string \<times> string \<times> 'v) list \<Rightarrow> 'v theme \<Rightarrow> py_error + 'v theme" where
  "set_each class_name [] t = Inr t"
| "set_each class_name ((state, key, val) # params) t =
     (case set_style class_name state key val t of
        Inl e \<Rightarrow> Inl e
      | Inr t' \<Rightarrow> set_each class_name params t')"

section \<open>Theme.get_dict_for_class, Theme.get_dict, Theme.get_value\<close>

text \<open>
  The \<^verbatim>\<open>while True\<close> loop: append the class, stop at the class named \<open>base_name\<close>,
  otherwise go on with \<^verbatim>\<open>klass.__bases__[0]\<close>, which raises \<open>IndexError\<close> on the empty
  tuple.
\<close>

fun collect_classes :: "string \<Rightarrow> klass \<Rightarrow> klass list \<Rightarrow> py_error + klass list" where
  "collect_classes base_name (Klass n bs) classes =
     (if n = base_name then Inr (classes @ [Klass n bs])
      else (case bs of
              [] \<Rightarrow> Inl IndexError
            | b # _ \<Rightarrow> collect_classes base_name b (classes @ [Klass n bs])))"

text \<open>\<^verbatim>\<open>self._styles[class_name][state]\<close>\<close>

definition styles_lookup :: "'v theme \<Rightarrow> string \<Rightarrow> string \<Rightarrow> py_error + 'v style" where
  "styles_lookup t class_name state =
     (case getitem (styles t) class_name of
        Inl e \<Rightarrow> Inl e
      | Inr c \<Rightarrow> getitem c state)"

text \<open>
  The \<^verbatim>\<open>for klass in classes\<close> loop. \<^verbatim>\<open>dict(chain(a.items(), b.items()))\<close> is a new dict in
  which the entries of \<open>b\<close> overwrite those of \<open>a\<close>: \<open>a ++ b\<close>.
\<close>

fun merge_classes :: "'v theme \<Rightarrow> string \<Rightarrow> klass list \<Rightarrow> 'v style \<Rightarrow> py_error + 'v style" where
  "merge_classes t state [] style = Inr style"
| "merge_classes t state (klass # classes) style =
     (let class_name = cls_name klass
      in case except_KeyError (styles_lookup t class_name state) Map.empty of
           Inl e \<Rightarrow> Inl e
         | Inr state_styles \<Rightarrow>
             (if state \<noteq> ''normal'' then
                (case except_KeyError (styles_lookup t class_name ''normal'') Map.empty of
                   Inl e \<Rightarrow> Inl e
                 | Inr normal_styles \<Rightarrow>
                     merge_classes t state classes ((normal_styles ++ state_styles) ++ style))
              else merge_classes t state classes (state_styles ++ style)))"

text \<open>\<^verbatim>\<open>if state is None: state = 'normal'\<close>\<close>

definition state_or_normal :: "string option \<Rightarrow> string" where
  "state_or_normal state = (case state of None \<Rightarrow> ''normal'' | Some s \<Rightarrow> s)"

text \<open>
  The method reads \<^verbatim>\<open>self._styles\<close> by subscripting only and builds every dict it
  returns with \<^verbatim>\<open>dict(...)\<close>; the second component is the theme after the call.
\<close>

definition get_dict_for_class :: "klass \<Rightarrow> string option \<Rightarrow> string \<Rightarrow> 'v theme \<Rightarrow> (py_error + 'v style) \<times> 'v theme" where
  "get_dict_for_class class_name state base_name t =
     (case collect_classes base_name class_name [] of
        Inl e \<Rightarrow> (Inl e, t)
      | Inr classes \<Rightarrow>
          (let state' = state_or_normal state
           in (merge_classes t state' classes Map.empty, t)))"

text \<open>A view instance, as far as \<^verbatim>\<open>get_dict\<close> reads it: \<^verbatim>\<open>obj.__class__\<close> and \<^verbatim>\<open>obj.state\<close>.\<close>

record view_obj =
  obj_class :: klass
  obj_state :: "string option"

definition get_dict :: "view_obj \<Rightarrow> string option \<Rightarrow> string \<Rightarrow> 'v theme \<Rightarrow> (py_error + 'v style) \<times> 'v theme" where
  "get_dict obj state base_name t =
     get_dict_for_class (obj_class obj) (obj_state obj) base_name t"

definition get_value :: "klass \<Rightarrow> string \<Rightarrow> 'v \<Rightarrow> string option \<Rightarrow> string \<Rightarrow> 'v theme \<Rightarrow> (py_error + 'v) \<times> 'v theme" where
  "get_value class_name attr default_value state base_name t =
     (case get_dict_for_class class_name state base_name t of
        (Inl e, t') \<Rightarrow> (Inl e, t')
      | (Inr styles', t') \<Rightarrow> (except_KeyError (getitem styles' attr) default_value, t'))"

section \<open>Notions used to state the properties of the theme\<close>

text \<open>
  The entries of one cell of the style table, \<open>StyleTable[class][state]\<close>, an absent
  class or state having none. Key \<open>k\<close> is defined for a class and a state with value
  \<open>v\<close> when \<open>style_entry t class_name state k = Some v\<close>.
\<close>

definition style_entry :: "'v theme \<Rightarrow> string \<Rightarrow> string \<Rightarrow> 'v style" where
  "style_entry t class_name state =
     (case styles t class_name of
        None \<Rightarrow> Map.empty
      | Some c \<Rightarrow> (case c state of None \<Rightarrow> Map.empty | Some d \<Rightarrow> d))"

text \<open>What one class contributes for a state: its normal entries under its state entries.\<close>

definition class_layer :: "'v theme \<Rightarrow> string \<Rightarrow> string \<Rightarrow> 'v style" where
  "class_layer t state class_name =
     (if state \<noteq> ''normal''
      then style_entry t class_name ''normal'' ++ style_entry t class_name state
      else style_entry t class_name state)"

text \<open>The table after one successful \<^verbatim>\<open>set\<close>.\<close>

definition put_style :: "string \<Rightarrow> string \<Rightarrow> string \<Rightarrow> 'v \<Rightarrow> 'v theme \<Rightarrow> 'v theme" where
  "put_style class_name state key val t =
     t\<lparr>styles := (styles t)(class_name \<mapsto>
         (case styles t class_name of None \<Rightarrow> Map.empty | Some c \<Rightarrow> c)
           (state \<mapsto> (style_entry t class_name state)(key \<mapsto> val)))\<rparr>"

text \<open>The table after \<^verbatim>\<open>self._styles.setdefault(class_name, {})\<close> alone.\<close>

definition ensure_class :: "string \<Rightarrow> 'v theme \<Rightarrow> 'v theme" where
  "ensure_class class_name t = t\<lparr>styles := snd (setdefault (styles t) class_name Map.empty)\<rparr>"

text \<open>
  The single-parent ancestor chain of a class: the class, its first base, the first base
  of that one, and so on up to the root.
\<close>

fun first_base_chain :: "klass \<Rightarrow> klass list" where
  "first_base_chain (Klass n bs) =
     Klass n bs # (case bs of [] \<Rightarrow> [] | b # _ \<Rightarrow> first_base_chain b)"

text \<open>
  The class chain of the specification: from the class up to and including the first
  class named \<open>base_name\<close>, taking the first declared parent each time; \<open>None\<close> when
  no class of that name is reached.
\<close>

fun class_chain :: "string \<Rightarrow> klass \<Rightarrow> klass list option" where
  "class_chain base_name (Klass n bs) =
     (if n = base_name then Some [Klass n bs]
      else (case bs of
              [] \<Rightarrow> None
            | b # _ \<Rightarrow> map_option (Cons (Klass n bs)) (class_chain base_name b)))"

section \<open>The event loop of \<^verbatim>\<open>run\<close>\<close>

text \<open>
  Views are objects compared by identity; a reference stands for one. The module
  \<^verbatim>\<open>view.py\<close> is not among the sources, so what the loop asks of it is a parameter:
  the root \<^verbatim>\<open>view.current\<close>, its \<^verbatim>\<open>hit\<close> method, \<^verbatim>\<open>from_window\<close> of each view,
  \<^verbatim>\<open>isinstance(v, Scene)\<close> and the \<^verbatim>\<open>draggable\<close> attribute.
\<close>

type_synonym view_ref = nat

type_synonym point = "int \<times> int"

record views =
  current :: view_ref
  hit :: "point \<Rightarrow> view_ref option"
  from_window :: "view_ref \<Rightarrow> point \<Rightarrow> point"
  is_scene :: "view_ref \<Rightarrow> bool"
  draggable :: "view_ref \<Rightarrow> bool"

text \<open>
  The methods the loop and \<^verbatim>\<open>focus.set\<close> call on a view. Their bodies belong to the
  views and the application; a call is recorded, in order, and is taken to return
  without touching the focus or the pressed view.
\<close>

datatype callback =
    Mouse_down int point
  | Mouse_up int point
  | Mouse_drag point point
  | Mouse_motion point
  | Key_down int string
  | Key_up int
  | Blurred
  | Focused

text \<open>
  The state of the loop: the local variable \<^verbatim>\<open>down_in_view\<close>, the module variable
  \<^verbatim>\<open>focus.view\<close>, and the calls made on views so far.
\<close>

record dispatch =
  down_in_view :: "view_ref option"
  focus_view :: "view_ref option"
  calls :: "(view_ref \<times> callback) list"

definition deliver :: "view_ref \<Rightarrow> callback \<Rightarrow> dispatch \<Rightarrow> dispatch" where
  "deliver v cb s = s\<lparr>calls := calls s @ [(v, cb)]\<rparr>"

text \<open>
  Modelled from the spec: \<^verbatim>\<open>focus.set\<close>, whose module \<^verbatim>\<open>focus.py\<close> is not among the
  sources. Setting the focus to the view that already has it, or to none while none has
  it, does nothing. Otherwise a view that holds the focus is sent a blur notification,
  then the new reference is installed, then the new view, if any, is sent a focus
  notification.
\<close>

definition focus_set :: "view_ref option \<Rightarrow> dispatch \<Rightarrow> dispatch" where
  "focus_set new_focus s =
     (if focus_view s = new_focus then s
      else
        (let s1 = (case focus_view s of None \<Rightarrow> s | Some old \<Rightarrow> deliver old Blurred s);
             s2 = s1\<lparr>focus_view := new_focus\<rparr>
         in case new_focus of None \<Rightarrow> s2 | Some v \<Rightarrow> deliver v Focused s2))"

datatype event =
    QUIT
  | MOUSEBUTTONDOWN int
  | MOUSEBUTTONUP int
  | MOUSEMOTION point
  | KEYDOWN int string
  | KEYUP int
  | OTHER

text \<open>
  The body of \<^verbatim>\<open>for e in pygame.event.get()\<close> for one event; \<open>mousepoint\<close> is what
  \<^verbatim>\<open>pygame.mouse.get_pos()\<close> returns while the event is handled. \<open>None\<close> is
  \<^verbatim>\<open>sys.exit()\<close>.
\<close>

definition handle_event :: "views \<Rightarrow> event \<Rightarrow> point \<Rightarrow> dispatch \<Rightarrow> dispatch option" where
  "handle_event w e mousepoint s =
     (case e of
        QUIT \<Rightarrow> None
      | MOUSEBUTTONDOWN button \<Rightarrow>
          (case hit w mousepoint of
             Some hit_view \<Rightarrow>
               if \<not> is_scene w hit_view then
                 (let s1 = focus_set (Some hit_view) s;
                      s2 = s1\<lparr>down_in_view := Some hit_view\<rparr>;
                      pt = from_window w hit_view mousepoint
                  in Some (deliver hit_view (Mouse_down button pt) s2))
               else Some (focus_set None s)
           | None \<Rightarrow> Some (focus_set None s))
      | MOUSEBUTTONUP button \<Rightarrow>
          (let s3 =
             (case hit w mousepoint of
                Some hit_view \<Rightarrow>
                  (let s1 =
                     (case down_in_view s of
                        Some d \<Rightarrow>
                          if hit_view \<noteq> d then focus_set None (deliver d Blurred s) else s
                      | None \<Rightarrow> s);
                       pt = from_window w hit_view mousepoint
                   in deliver hit_view (Mouse_up button pt) s1)
              | None \<Rightarrow> s)
           in Some (s3\<lparr>down_in_view := None\<rparr>))
      | MOUSEMOTION rel \<Rightarrow>
          (case down_in_view s of
             Some d \<Rightarrow>
               if draggable w d then
                 (let pt = from_window w d mousepoint in Some (deliver d (Mouse_drag pt rel) s))
               else Some (deliver (current w) (Mouse_motion mousepoint) s)
           | None \<Rightarrow> Some (deliver (current w) (Mouse_motion mousepoint) s))
      | KEYDOWN key unicode \<Rightarrow>
          (case focus_view s of
             Some f \<Rightarrow> Some (deliver f (Key_down key unicode) s)
           | None \<Rightarrow> Some (deliver (current w) (Key_down key unicode) s))
      | KEYUP key \<Rightarrow>
          (case focus_view s of
             Some f \<Rightarrow> Some (deliver f (Key_up key) s)
           | None \<Rightarrow> Some (deliver (current w) (Key_up key) s))
      | OTHER \<Rightarrow> Some s)"

text \<open>The calls made between two states of the loop, and the presses among calls.\<close>

definition delivered :: "dispatch \<Rightarrow> dispatch \<Rightarrow> (view_ref \<times> callback) list" where
  "delivered s s' = drop (length (calls s)) (calls s')"

fun is_press :: "view_ref \<times> callback \<Rightarrow> bool" where
  "is_press (v, Mouse_down b p) = True"
| "is_press (v, cb) = False"

section \<open>Module variables read by \<^verbatim>\<open>use_theme\<close>\<close>

text \<open>
  Two modules hold a reference to a root view. \<^verbatim>\<open>view.current\<close> is the module variable
  of \<^verbatim>\<open>view\<close> that the event loop reads. The theme module has variables of its own:
  \<^verbatim>\<open>current\<close>, and \<^verbatim>\<open>current_view\<close>, which
  \<^verbatim>\<open>from .view import current as current_view\<close> binds, when the module is imported, to
  the value \<^verbatim>\<open>view.current\<close> has at that moment. No statement of \<^verbatim>\<open>theme.py\<close> assigns
  \<^verbatim>\<open>current_view\<close> again. The calls of \<^verbatim>\<open>stylize\<close> are recorded.
\<close>

record 'v modules =
  view_current :: "view_ref option"
  theme_current_view :: "view_ref option"
  theme_current :: "'v theme option"
  stylize_calls :: "view_ref list"

text \<open>The module body of \<^verbatim>\<open>theme.py\<close>: the import of line 5 and \<^verbatim>\<open>current = None\<close>.\<close>

definition import_theme :: "'v modules \<Rightarrow> 'v modules" where
  "import_theme g = g\<lparr>theme_current_view := view_current g, theme_current := None\<rparr>"

text \<open>
  Modelled from the spec: the assignment to \<^verbatim>\<open>view.current\<close> in \<^verbatim>\<open>view.py\<close>, which is
  not among the sources. The variable refers to the root on top of the view stack, none
  while no root is active, and is rebound when a root is pushed or popped.
\<close>

definition view_set_current :: "view_ref option \<Rightarrow> 'v modules \<Rightarrow> 'v modules" where
  "view_set_current root g = g\<lparr>view_current := root\<rparr>"

text \<open>
  \<^verbatim>\<open>global current; current = theme\<close>
  \<^verbatim>\<open>if current_view is not None: current_view.stylize()\<close>
\<close>

definition use_theme :: "'v theme \<Rightarrow> 'v modules \<Rightarrow> 'v modules" where
  "use_theme theme g =
     (let g1 = g\<lparr>theme_current := Some theme\<rparr>
      in case theme_current_view g1 of
           None \<Rightarrow> g1
         | Some v \<Rightarrow> g1\<lparr>stylize_calls := stylize_calls g1 @ [v]\<rparr>)"

section \<open>Example data\<close>

text \<open>
  A small class hierarchy, a class that does not derive from \<^verbatim>\<open>View\<close>, and a theme with
  colours as RGB triples.
\<close>

definition demo_view :: klass where
  "demo_view = Klass ''View'' [Klass ''object'' []]"

definition demo_button :: klass where
  "demo_button = Klass ''Button'' [Klass ''Control'' [demo_view]]"

definition demo_widget :: klass where
  "demo_widget = Klass ''Widget'' [Klass ''object'' []]"

definition demo_theme :: "(nat \<times> nat \<times> nat) theme" where
  "demo_theme =
     \<lparr>styles =
        [''View'' \<mapsto> [''normal'' \<mapsto> [''background_color'' \<mapsto> (128, 128, 128)]],
         ''Button'' \<mapsto>
           [''normal'' \<mapsto> [''background_color'' \<mapsto> (64, 64, 64), ''text_color'' \<mapsto> (0, 0, 0)],
            ''focused'' \<mapsto> [''text_color'' \<mapsto> (255, 255, 255)]]]\<rparr>"

definition demo_params :: "(string \<times> string \<times> nat \<times> nat \<times> nat) list" where
  "demo_params =
     [(''normal'', ''text_color'', (1, 1, 1)), (''focused'', ''text_color'', (2, 2, 2)),
      (''normal'', ''text_color'', (3, 3, 3))]"

text \<open>
  A scene 0 that fills the window, with view 1 at the window's origin and view 2 with its
  frame at (80, 80); nothing is hit at other points than the three listed.
\<close>

definition demo_views :: views where
  "demo_views =
     \<lparr>current = 0,
      hit = (\<lambda>p. if p = (10, 10) then Some 1 else if p = (90, 90) then Some 2
                  else if p = (200, 200) then Some 0 else None),
      from_window = (\<lambda>v p. if v = 2 then (fst p - 80, snd p - 80) else p),
      is_scene = (\<lambda>v. v = 0),
      draggable = (\<lambda>v. False)\<rparr>"

definition idle :: dispatch where
  "idle = \<lparr>down_in_view = None, focus_view = None, calls = []\<rparr>"

text \<open>The loop after a press on view 1, and after the release over view 2 that follows.\<close>

definition pressed :: dispatch where
  "pressed =
     \<lparr>down_in_view = Some 1, focus_view = Some 1,
      calls = [(1, Focused), (1, Mouse_down 1 (10, 10))]\<rparr>"

definition released :: dispatch where
  "released =
     \<lparr>down_in_view = None, focus_view = None,
      calls = [(1, Focused), (1, Mouse_down 1 (10, 10)), (1, Blurred), (1, Blurred),
               (2, Mouse_up 1 (10, 10))]\<rparr>"

definition at_import :: "(nat \<times> nat \<times> nat) modules" where
  "at_import =
     \<lparr>view_current = None, theme_current_view = None, theme_current = None,
      stylize_calls = []\<rparr>"

section \<open>Facts about the dicts of a theme\<close>

lemma set_style_eq: "set_style cn st k v t = Inr (put_style cn st k v t)"
  by (simp add: set_style_def put_style_def style_entry_def setdefault_def getitem_def
      split: option.splits)

lemma put_style_styles_dom: "styles (put_style cn st k v t) cn \<noteq> None"
  by (simp add: put_style_def)

lemma set_for_class_loop_eq:
  "styles t cn \<noteq> None \<Longrightarrow>
   set_for_class_loop cn ps t = Inr (fold (\<lambda>(st, k, v). put_style cn st k v) ps t)"
proof (induction ps arbitrary: t)
  case Nil
  then show ?case by simp
next
  case (Cons p ps)
  obtain st k v where p: "p = (st, k, v)" by (cases p)
  from Cons.prems obtain c where c: "styles t cn = Some c" by auto
  have step: "set_for_class_loop cn (p # ps) t = set_for_class_loop cn ps (put_style cn st k v t)"
    using c by (simp add: p put_style_def style_entry_def setdefault_def getitem_def
        split: option.splits)
  show ?case
    unfolding step using Cons.IH [OF put_style_styles_dom, of st k v t] by (simp add: p)
qed

lemma set_each_eq:
  "set_each cn ps t = Inr (fold (\<lambda>(st, k, v). put_style cn st k v) ps t)"
  by (induction ps arbitrary: t) (auto simp: set_style_eq)

text \<open>Writes under different states go to different cells, so they commute.\<close>

lemma put_style_commute:
  "st \<noteq> st' \<Longrightarrow>
   put_style cn st k v (put_style cn st' k' v' t) = put_style cn st' k' v' (put_style cn st k v t)"
  by (auto simp: put_style_def style_entry_def fun_eq_iff split: option.splits)

lemma put_style_ensure_class:
  "put_style cn st k v (ensure_class cn t) = put_style cn st k v t"
  by (auto simp: put_style_def ensure_class_def style_entry_def setdefault_def fun_eq_iff
      split: option.splits)

lemma ensure_class_present: "styles t cn \<noteq> None \<Longrightarrow> ensure_class cn t = t"
  by (auto simp: ensure_class_def setdefault_def split: option.splits)

lemma ensure_class_dom: "styles (ensure_class cn t) cn \<noteq> None"
  by (auto simp: ensure_class_def setdefault_def split: option.splits)

text \<open>
  Inserting into a list by key moves the element only past elements of a smaller key;
  when steps of different keys commute, running the steps in sorted order gives what the
  given order gives.
\<close>

lemma fold_insort_key_commute:
  fixes f :: "'a \<Rightarrow> 'k::linorder"
  assumes comm: "\<And>x y s. f x \<noteq> f y \<Longrightarrow> g x (g y s) = g y (g x s)"
  shows "fold g (insort_key f x ys) s = fold g ys (g x s)"
proof (induction ys arbitrary: s)
  case Nil
  then show ?case by simp
next
  case (Cons y ys)
  show ?case
  proof (cases "f x \<le> f y")
    case True
    then show ?thesis by simp
  next
    case False
    then have "f x \<noteq> f y" by auto
    then have "g x (g y s) = g y (g x s)" by (rule comm)
    with False show ?thesis by (simp add: Cons.IH)
  qed
qed

lemma fold_sort_key_commute:
  fixes f :: "'a \<Rightarrow> 'k::linorder"
  assumes comm: "\<And>x y s. f x \<noteq> f y \<Longrightarrow> g x (g y s) = g y (g x s)"
  shows "fold g (sort_key f xs) s = fold g xs s"
proof (induction xs arbitrary: s)
  case Nil
  then show ?case by simp
next
  case (Cons x xs)
  have "fold g (sort_key f (x # xs)) s = fold g (sort_key f xs) (g x s)"
    by (simp add: fold_insort_key_commute [of f g, OF comm])
  then show ?case by (simp add: Cons.IH)
qed

lemma fold_put_style_sorted:
  "fold (\<lambda>(st, k, v). put_style cn st k v) (sort_key fst ps) t
   = fold (\<lambda>(st, k, v). put_style cn st k v) ps t"
  by (rule fold_sort_key_commute) (auto simp: put_style_commute)

lemma set_for_class_eq:
  "set_for_class cn ps t = Inr (fold (\<lambda>(st, k, v). put_style cn st k v) ps (ensure_class cn t))"
proof -
  have "set_for_class cn ps t = set_for_class_loop cn (sort_key fst ps) (ensure_class cn t)"
    by (simp add: set_for_class_def ensure_class_def split: prod.splits)
  then show ?thesis
    by (simp add: set_for_class_loop_eq [OF ensure_class_dom] fold_put_style_sorted)
qed

lemma fold_put_style_ensure_class:
  "ps \<noteq> [] \<Longrightarrow>
   fold (\<lambda>(st, k, v). put_style cn st k v) ps (ensure_class cn t)
   = fold (\<lambda>(st, k, v). put_style cn st k v) ps t"
  by (cases ps) (auto simp: put_style_ensure_class)

section \<open>Facts about style resolution\<close>

lemma styles_lookup_entry:
  "except_KeyError (styles_lookup t cn st) Map.empty = Inr (style_entry t cn st)"
  by (simp add: styles_lookup_def style_entry_def getitem_def split: option.splits)

lemma merge_classes_eq:
  "merge_classes t st cs style
   = Inr (fold (\<lambda>c acc. class_layer t st (cls_name c) ++ acc) cs style)"
proof (induction cs arbitrary: style)
  case Nil
  then show ?case by simp
next
  case (Cons c cs)
  have "merge_classes t st (c # cs) style
        = merge_classes t st cs (class_layer t st (cls_name c) ++ style)"
    by (simp add: styles_lookup_entry class_layer_def Let_def)
  then show ?case by (simp add: Cons.IH)
qed

lemma fold_layer_keeps:
  "style k = Some v \<Longrightarrow> fold (\<lambda>c acc. class_layer t st (cls_name c) ++ acc) cs style k = Some v"
  by (induction cs arbitrary: style) (simp_all add: map_add_Some_iff)

lemma fold_layer_absent:
  "style k = None \<Longrightarrow> \<forall>c \<in> set cs. class_layer t st (cls_name c) k = None \<Longrightarrow>
   fold (\<lambda>c acc. class_layer t st (cls_name c) ++ acc) cs style k = None"
  by (induction cs arbitrary: style) (simp_all add: map_add_None)

lemma collect_classes_chain:
  "collect_classes base_name c acc
   = (case class_chain base_name c of None \<Rightarrow> Inl IndexError | Some cs \<Rightarrow> Inr (acc @ cs))"
proof (induction base_name c acc rule: collect_classes.induct)
  case (1 base_name n bs classes)
  show ?case
  proof (cases "n = base_name")
    case True
    then show ?thesis by simp
  next
    case False
    show ?thesis
    proof (cases bs)
      case Nil
      with False show ?thesis by simp
    next
      case (Cons b bs')
      with False "1.IH" [OF False Cons] show ?thesis
        by (simp split: option.splits)
    qed
  qed
qed

lemma class_chain_head: "class_chain base_name c = Some cs \<Longrightarrow> \<exists>rest. cs = c # rest"
  by (cases c) (auto split: if_splits list.splits)

lemma class_chain_None_iff:
  "class_chain base_name c = None \<longleftrightarrow> base_name \<notin> cls_name ` set (first_base_chain c)"
  by (induction c rule: first_base_chain.induct) (auto split: list.splits)

lemma get_dict_for_class_eq:
  "class_chain base_name c = Some cs \<Longrightarrow>
   get_dict_for_class c state base_name t
   = (Inr (fold (\<lambda>c acc. class_layer t (state_or_normal state) (cls_name c) ++ acc) cs Map.empty), t)"
  by (simp add: get_dict_for_class_def collect_classes_chain merge_classes_eq)

lemma get_dict_for_class_fails:
  "class_chain base_name c = None \<Longrightarrow> get_dict_for_class c state base_name t = (Inl IndexError, t)"
  by (simp add: get_dict_for_class_def collect_classes_chain)

lemma leaf_layer_wins:
  assumes "class_chain base_name c = Some cs"
    and "class_layer t (state_or_normal state) (cls_name c) k = Some v"
  shows "\<exists>m. fst (get_dict_for_class c state base_name t) = Inr m \<and> m k = Some v"
proof -
  from assms(1) obtain rest where cs: "cs = c # rest"
    using class_chain_head by blast
  show ?thesis
    using assms(2) by (simp add: get_dict_for_class_eq [OF assms(1)] cs fold_layer_keeps)
qed

lemma demo_chain:
  "class_chain ''View'' demo_button = Some [demo_button, Klass ''Control'' [demo_view], demo_view]"
  by (simp add: demo_button_def demo_view_def)

section \<open>Style resolution: precedence, underlay, absence, purity\<close>

text \<open>
  C1. For a class \<open>leaf\<close> whose chain reaches the base class, any class \<open>anc\<close> on that
  chain (the base, or one in between), any state and any key defined for that state on
  both \<open>anc\<close> and \<open>leaf\<close>: the map that \<^verbatim>\<open>get_dict_for_class\<close> returns for \<open>leaf\<close> has
  the value of \<open>leaf\<close> under that key. An omitted state counts as \<^verbatim>\<open>'normal'\<close>.
\<close>

theorem leaf_class_entry_wins:
  assumes "class_chain base_name leaf = Some classes"
    and "anc \<in> set classes"
    and "style_entry t (cls_name anc) (state_or_normal state) k = Some va"
    and "style_entry t (cls_name leaf) (state_or_normal state) k = Some vl"
  shows "\<exists>m. fst (get_dict_for_class leaf state base_name t) = Inr m \<and> m k = Some vl"
proof -
  have "class_layer t (state_or_normal state) (cls_name leaf) k = Some vl"
    using assms(4) by (auto simp: class_layer_def map_add_Some_iff)
  with assms(1) show ?thesis by (rule leaf_layer_wins)
qed

text \<open>
  In the example theme \<^verbatim>\<open>View\<close> and \<^verbatim>\<open>Button\<close> both define \<^verbatim>\<open>background_color\<close> for
  \<^verbatim>\<open>'normal'\<close>; \<^verbatim>\<open>Button\<close> derives from \<^verbatim>\<open>View\<close> through \<^verbatim>\<open>Control\<close>.
\<close>

theorem leaf_class_entry_wins_witness:
  "class_chain ''View'' demo_button = Some [demo_button, Klass ''Control'' [demo_view], demo_view] \<and>
   demo_view \<in> set [demo_button, Klass ''Control'' [demo_view], demo_view] \<and>
   style_entry demo_theme (cls_name demo_view) (state_or_normal None) ''background_color''
     = Some (128, 128, 128) \<and>
   style_entry demo_theme (cls_name demo_button) (state_or_normal None) ''background_color''
     = Some (64, 64, 64) \<and>
   (\<exists>m. fst (get_dict_for_class demo_button None ''View'' demo_theme) = Inr m \<and>
        m ''background_color'' = Some (64, 64, 64))"
proof -
  have h2: "demo_view \<in> set [demo_button, Klass ''Control'' [demo_view], demo_view]"
    by simp
  have h3: "style_entry demo_theme (cls_name demo_view) (state_or_normal None) ''background_color''
            = Some (128, 128, 128)"
    by (simp add: style_entry_def demo_theme_def demo_view_def state_or_normal_def)
  have h4: "style_entry demo_theme (cls_name demo_button) (state_or_normal None) ''background_color''
            = Some (64, 64, 64)"
    by (simp add: style_entry_def demo_theme_def demo_button_def state_or_normal_def)
  from leaf_class_entry_wins [OF demo_chain h2 h3 h4] demo_chain h2 h3 h4
  show ?thesis by blast
qed

text \<open>
  C2. For a class \<open>c\<close> whose chain reaches the base class: a key \<open>k\<close> that \<open>c\<close> defines
  under \<^verbatim>\<open>'normal'\<close> only has its normal value in the map returned for \<^verbatim>\<open>'focused'\<close>; a
  key \<open>k'\<close> that \<open>c\<close> defines under both has its focused value there.
\<close>

theorem normal_underlies_focused:
  assumes "class_chain base_name c = Some classes"
  shows "(style_entry t (cls_name c) ''normal'' k = Some vn \<and>
          style_entry t (cls_name c) ''focused'' k = None \<longrightarrow>
            (\<exists>m. fst (get_dict_for_class c (Some ''focused'') base_name t) = Inr m \<and>
                 m k = Some vn)) \<and>
         (style_entry t (cls_name c) ''normal'' k' = Some vn' \<and>
          style_entry t (cls_name c) ''focused'' k' = Some vf \<longrightarrow>
            (\<exists>m. fst (get_dict_for_class c (Some ''focused'') base_name t) = Inr m \<and>
                 m k' = Some vf))"
proof (intro conjI impI)
  assume "style_entry t (cls_name c) ''normal'' k = Some vn \<and>
          style_entry t (cls_name c) ''focused'' k = None"
  then have "class_layer t (state_or_normal (Some ''focused'')) (cls_name c) k = Some vn"
    by (simp add: class_layer_def state_or_normal_def map_add_Some_iff)
  with assms
  show "\<exists>m. fst (get_dict_for_class c (Some ''focused'') base_name t) = Inr m \<and> m k = Some vn"
    by (rule leaf_layer_wins)
next
  assume "style_entry t (cls_name c) ''normal'' k' = Some vn' \<and>
          style_entry t (cls_name c) ''focused'' k' = Some vf"
  then have "class_layer t (state_or_normal (Some ''focused'')) (cls_name c) k' = Some vf"
    by (simp add: class_layer_def state_or_normal_def map_add_Some_iff)
  with assms
  show "\<exists>m. fst (get_dict_for_class c (Some ''focused'') base_name t) = Inr m \<and> m k' = Some vf"
    by (rule leaf_layer_wins)
qed

text \<open>
  \<^verbatim>\<open>Button\<close> defines \<^verbatim>\<open>background_color\<close> under \<^verbatim>\<open>'normal'\<close> only and \<^verbatim>\<open>text_color\<close> under
  both states.
\<close>

theorem normal_underlies_focused_witness:
  "class_chain ''View'' demo_button = Some [demo_button, Klass ''Control'' [demo_view], demo_view] \<and>
   style_entry demo_theme (cls_name demo_button) ''normal'' ''background_color'' = Some (64, 64, 64) \<and>
   style_entry demo_theme (cls_name demo_button) ''focused'' ''background_color'' = None \<and>
   (\<exists>m. fst (get_dict_for_class demo_button (Some ''focused'') ''View'' demo_theme) = Inr m \<and>
        m ''background_color'' = Some (64, 64, 64)) \<and>
   style_entry demo_theme (cls_name demo_button) ''normal'' ''text_color'' = Some (0, 0, 0) \<and>
   style_entry demo_theme (cls_name demo_button) ''focused'' ''text_color'' = Some (255, 255, 255) \<and>
   (\<exists>m. fst (get_dict_for_class demo_button (Some ''focused'') ''View'' demo_theme) = Inr m \<and>
        m ''text_color'' = Some (255, 255, 255))"
proof -
  have h2: "style_entry demo_theme (cls_name demo_button) ''normal'' ''background_color''
            = Some (64, 64, 64)"
    by (simp add: style_entry_def demo_theme_def demo_button_def)
  have h3: "style_entry demo_theme (cls_name demo_button) ''focused'' ''background_color'' = None"
    by (simp add: style_entry_def demo_theme_def demo_button_def)
  have h4: "style_entry demo_theme (cls_name demo_button) ''normal'' ''text_color'' = Some (0, 0, 0)"
    by (simp add: style_entry_def demo_theme_def demo_button_def)
  have h5: "style_entry demo_theme (cls_name demo_button) ''focused'' ''text_color''
            = Some (255, 255, 255)"
    by (simp add: style_entry_def demo_theme_def demo_button_def)
  from normal_underlies_focused [OF demo_chain, of demo_theme "''background_color''" "(64, 64, 64)"
      "''text_color''" "(0, 0, 0)" "(255, 255, 255)"]
    demo_chain h2 h3 h4 h5
  show ?thesis by blast
qed

text \<open>
  C5, as the code has it. For a class whose single-parent ancestor chain has no class
  named \<open>base_name\<close>, \<^verbatim>\<open>get_dict_for_class\<close> fails with the \<open>IndexError\<close> that
  \<^verbatim>\<open>klass.__bases__[0]\<close> raises at the root of the chain.
\<close>

theorem unreached_base_raises_IndexError:
  "base_name \<notin> cls_name ` set (first_base_chain c) \<Longrightarrow>
   fst (get_dict_for_class c state base_name t) = Inl IndexError"
  by (simp add: get_dict_for_class_fails class_chain_None_iff)

theorem unreached_base_raises_IndexError_witness:
  "''View'' \<notin> cls_name ` set (first_base_chain demo_widget) \<and>
   fst (get_dict_for_class demo_widget None ''View'' demo_theme) = Inl IndexError"
proof -
  have h: "''View'' \<notin> cls_name ` set (first_base_chain demo_widget)"
    by (simp add: demo_widget_def)
  from unreached_base_raises_IndexError [OF h] h show ?thesis by blast
qed

text \<open>
  C5, as stated, fails: the chain of \<^verbatim>\<open>Widget\<close> is \<^verbatim>\<open>Widget\<close>, \<^verbatim>\<open>object\<close>, no class of it
  is named \<^verbatim>\<open>View\<close>, and the error of the call is not \<open>ConfigurationError\<close>.
\<close>

theorem widget_error_not_ConfigurationError:
  "''View'' \<notin> cls_name ` set (first_base_chain demo_widget) \<and>
   fst (get_dict_for_class demo_widget None ''View'' demo_theme) \<noteq> Inl ConfigurationError"
  by (simp add: demo_widget_def get_dict_for_class_def)

text \<open>
  C7. A call of \<^verbatim>\<open>get_dict_for_class\<close> leaves the theme as it was, whether it returns a
  map or raises, and a second call with the same arguments on the theme the first call
  left gives the result of the first.
\<close>

theorem get_dict_for_class_pure:
  "snd (get_dict_for_class c state base_name t) = t \<and>
   fst (get_dict_for_class c state base_name (snd (get_dict_for_class c state base_name t)))
   = fst (get_dict_for_class c state base_name t)"
proof -
  have "snd (get_dict_for_class c state base_name t) = t"
    by (cases "class_chain base_name c")
      (simp_all add: get_dict_for_class_fails get_dict_for_class_eq)
  then show ?thesis by simp
qed

text \<open>
  C8. For a class whose chain reaches the base class and a key that no class of the chain
  defines, neither for the queried state nor for \<^verbatim>\<open>'normal'\<close>: the map returned by
  \<^verbatim>\<open>get_dict_for_class\<close> has no entry for the key, and \<^verbatim>\<open>get_value\<close> returns the default
  value it was given.
\<close>

theorem absent_key_gives_default:
  assumes "class_chain base_name c = Some classes"
    and "\<forall>klass \<in> set classes.
           style_entry t (cls_name klass) (state_or_normal state) k = None \<and>
           style_entry t (cls_name klass) ''normal'' k = None"
  shows "\<exists>m. fst (get_dict_for_class c state base_name t) = Inr m \<and> m k = None \<and>
             fst (get_value c k default_value state base_name t) = Inr default_value"
proof -
  let ?m = "fold (\<lambda>c acc. class_layer t (state_or_normal state) (cls_name c) ++ acc)
              classes Map.empty"
  have layers: "\<forall>c \<in> set classes. class_layer t (state_or_normal state) (cls_name c) k = None"
    using assms(2) by (simp add: class_layer_def map_add_None)
  have absent: "?m k = None"
    by (rule fold_layer_absent) (simp_all add: layers)
  have "fst (get_value c k default_value state base_name t) = Inr default_value"
    using absent by (simp add: get_value_def get_dict_for_class_eq [OF assms(1)] getitem_def)
  with absent show ?thesis
    by (simp add: get_dict_for_class_eq [OF assms(1)])
qed

text \<open>No class of the example defines \<^verbatim>\<open>border_color\<close>.\<close>

theorem absent_key_gives_default_witness:
  "class_chain ''View'' demo_button = Some [demo_button, Klass ''Control'' [demo_view], demo_view] \<and>
   style_entry demo_theme (cls_name demo_button) ''focused'' ''border_color'' = None \<and>
   style_entry demo_theme (cls_name demo_button) ''normal'' ''border_color'' = None \<and>
   style_entry demo_theme ''Control'' ''focused'' ''border_color'' = None \<and>
   style_entry demo_theme ''Control'' ''normal'' ''border_color'' = None \<and>
   style_entry demo_theme (cls_name demo_view) ''focused'' ''border_color'' = None \<and>
   style_entry demo_theme (cls_name demo_view) ''normal'' ''border_color'' = None \<and>
   (\<exists>m. fst (get_dict_for_class demo_button (Some ''focused'') ''View'' demo_theme) = Inr m \<and>
        m ''border_color'' = None \<and>
        fst (get_value demo_button ''border_color'' (1, 2, 3) (Some ''focused'') ''View'' demo_theme)
        = Inr (1, 2, 3))"
proof -
  have b: "style_entry demo_theme (cls_name demo_button) ''focused'' ''border_color'' = None"
    "style_entry demo_theme (cls_name demo_button) ''normal'' ''border_color'' = None"
    by (simp_all add: style_entry_def demo_theme_def demo_button_def)
  have c: "style_entry demo_theme ''Control'' ''focused'' ''border_color'' = None"
    "style_entry demo_theme ''Control'' ''normal'' ''border_color'' = None"
    by (simp_all add: style_entry_def demo_theme_def)
  have v: "style_entry demo_theme (cls_name demo_view) ''focused'' ''border_color'' = None"
    "style_entry demo_theme (cls_name demo_view) ''normal'' ''border_color'' = None"
    by (simp_all add: style_entry_def demo_theme_def demo_view_def)
  have h2: "\<forall>klass \<in> set [demo_button, Klass ''Control'' [demo_view], demo_view].
      style_entry demo_theme (cls_name klass) (state_or_normal (Some ''focused'')) ''border_color''
        = None \<and>
      style_entry demo_theme (cls_name klass) ''normal'' ''border_color'' = None"
    using b c v by (simp add: state_or_normal_def)
  from absent_key_gives_default [OF demo_chain h2, of "(1, 2, 3)"] demo_chain b c v
  show ?thesis by blast
qed

text \<open>
  C10. \<^verbatim>\<open>get_dict\<close> gives the same result whatever is passed as its state argument: the
  result is that of \<^verbatim>\<open>get_dict_for_class\<close> for the class of the object and the state of
  the object.
\<close>

theorem get_dict_ignores_state:
  "get_dict obj s1 base_name t = get_dict obj s2 base_name t \<and>
   get_dict obj s1 base_name t
   = get_dict_for_class (obj_class obj) (obj_state obj) base_name t"
  by (simp add: get_dict_def)

section \<open>Batched setting of styles\<close>

text \<open>
  C9, as the code has it. \<^verbatim>\<open>set_for_class\<close> never raises and leaves the table that the
  calls of \<^verbatim>\<open>set\<close>, one for each tuple in the order given, leave when they start from the
  table in which the class has an entry (an empty dict when it had none). When the list
  is not empty or the class has an entry already, that is the table the calls of \<^verbatim>\<open>set\<close>
  leave when they start from the table as it is.
\<close>

theorem set_for_class_as_set_each:
  "(\<exists>t'. set_for_class cn ps t = Inr t' \<and> set_each cn ps (ensure_class cn t) = Inr t') \<and>
   (ps \<noteq> [] \<or> styles t cn \<noteq> None \<longrightarrow> set_for_class cn ps t = set_each cn ps t)"
  using fold_put_style_ensure_class [of ps cn t] ensure_class_present [of t cn]
  by (auto simp: set_for_class_eq set_each_eq)

text \<open>Three tuples, not sorted by state, two of them for the same cell and key.\<close>

theorem set_for_class_as_set_each_witness:
  "demo_params \<noteq> [] \<and>
   set_for_class ''Label'' demo_params demo_theme = set_each ''Label'' demo_params demo_theme"
proof -
  have h: "demo_params \<noteq> []"
    by (simp add: demo_params_def)
  from set_for_class_as_set_each [of "''Label''" demo_params demo_theme] h
  show ?thesis by blast
qed

text \<open>
  C9, as stated, fails for the empty list and a class the table does not have:
  \<^verbatim>\<open>set_for_class\<close> leaves an empty entry for the class, no call of \<^verbatim>\<open>set\<close> leaves the
  table without one.
\<close>

theorem empty_params_leave_class_entry:
  "set_for_class ''Label'' [] demo_theme \<noteq> set_each ''Label'' [] demo_theme"
proof
  assume "set_for_class ''Label'' [] demo_theme = set_each ''Label'' [] demo_theme"
  then have "styles (ensure_class ''Label'' demo_theme) ''Label'' = styles demo_theme ''Label''"
    by (simp add: set_for_class_eq set_each_eq)
  then show False
    by (simp add: ensure_class_def setdefault_def demo_theme_def)
qed

section \<open>Facts about the focus and the calls of the loop\<close>

lemma calls_deliver: "calls (deliver v cb s) = calls s @ [(v, cb)]"
  by (simp add: deliver_def)

lemma focus_view_deliver: "focus_view (deliver v cb s) = focus_view s"
  by (simp add: deliver_def)

lemma focus_view_focus_set: "focus_view (focus_set n s) = n"
  by (auto simp: focus_set_def deliver_def Let_def split: option.splits)

lemma calls_focus_set_None:
  "calls (focus_set None s)
   = calls s @ (case focus_view s of None \<Rightarrow> [] | Some f \<Rightarrow> [(f, Blurred)])"
  by (auto simp: focus_set_def deliver_def Let_def split: option.splits)

lemma calls_focus_set:
  "\<exists>ns. calls (focus_set n s) = calls s @ ns \<and> filter is_press ns = []"
  by (auto simp: focus_set_def deliver_def Let_def split: option.splits)

section \<open>Pointer events\<close>

text \<open>
  C4. On a pointer-down event: when the hit test at the mouse point gives a view that is
  not a scene, the loop goes on with that view focused and recorded as the pressed view,
  and after the notifications of \<^verbatim>\<open>focus.set\<close> the view gets \<^verbatim>\<open>mouse_down\<close> with the
  button and the point translated by its \<^verbatim>\<open>from_window\<close>, the only press delivered. When
  nothing is hit (point \<open>q\<close>) or the view hit is a scene (point \<open>r\<close>), the focus is
  cleared and no press is delivered.
\<close>

theorem press_dispatch:
  "(hit w p = Some v \<and> \<not> is_scene w v \<longrightarrow>
      (\<exists>s'. handle_event w (MOUSEBUTTONDOWN button) p s = Some s' \<and>
            focus_view s' = Some v \<and> down_in_view s' = Some v \<and>
            calls s' = calls (focus_set (Some v) s) @ [(v, Mouse_down button (from_window w v p))] \<and>
            filter is_press (delivered s s') = [(v, Mouse_down button (from_window w v p))])) \<and>
   (hit w q = None \<longrightarrow>
      (\<exists>s'. handle_event w (MOUSEBUTTONDOWN button) q s = Some s' \<and>
            focus_view s' = None \<and> filter is_press (delivered s s') = [])) \<and>
   (hit w r = Some u \<and> is_scene w u \<longrightarrow>
      (\<exists>s'. handle_event w (MOUSEBUTTONDOWN button) r s = Some s' \<and>
            focus_view s' = None \<and> filter is_press (delivered s s') = []))"
proof -
  obtain ns where ns: "calls (focus_set (Some v) s) = calls s @ ns" "filter is_press ns = []"
    using calls_focus_set by blast
  obtain ms where ms: "calls (focus_set None s) = calls s @ ms" "filter is_press ms = []"
    using calls_focus_set by blast
  have cleared: "focus_view (focus_set None s) = None \<and>
                 filter is_press (delivered s (focus_set None s)) = []"
    by (simp add: focus_view_focus_set delivered_def ms)
  have hit_case: "\<exists>s'. handle_event w (MOUSEBUTTONDOWN button) p s = Some s' \<and>
            focus_view s' = Some v \<and> down_in_view s' = Some v \<and>
            calls s' = calls (focus_set (Some v) s) @ [(v, Mouse_down button (from_window w v p))] \<and>
            filter is_press (delivered s s') = [(v, Mouse_down button (from_window w v p))]"
    if h: "hit w p = Some v \<and> \<not> is_scene w v"
  proof -
    let ?s' = "deliver v (Mouse_down button (from_window w v p))
                 ((focus_set (Some v) s)\<lparr>down_in_view := Some v\<rparr>)"
    have ev: "handle_event w (MOUSEBUTTONDOWN button) p s = Some ?s'"
      using h by (simp add: handle_event_def)
    have c: "calls ?s' = calls (focus_set (Some v) s) @ [(v, Mouse_down button (from_window w v p))]"
      by (simp add: deliver_def)
    have "delivered s ?s' = ns @ [(v, Mouse_down button (from_window w v p))]"
      by (simp add: delivered_def c ns(1))
    then have d: "filter is_press (delivered s ?s') = [(v, Mouse_down button (from_window w v p))]"
      by (simp add: ns(2))
    have f: "focus_view ?s' = Some v" "down_in_view ?s' = Some v"
      by (simp_all add: deliver_def focus_view_focus_set)
    from ev c d f show ?thesis by blast
  qed
  have none_case: "\<exists>s'. handle_event w (MOUSEBUTTONDOWN button) q s = Some s' \<and>
            focus_view s' = None \<and> filter is_press (delivered s s') = []"
    if h: "hit w q = None"
  proof -
    have "handle_event w (MOUSEBUTTONDOWN button) q s = Some (focus_set None s)"
      using h by (simp add: handle_event_def)
    with cleared show ?thesis by simp
  qed
  have scene_case: "\<exists>s'. handle_event w (MOUSEBUTTONDOWN button) r s = Some s' \<and>
            focus_view s' = None \<and> filter is_press (delivered s s') = []"
    if h: "hit w r = Some u \<and> is_scene w u"
  proof -
    have "handle_event w (MOUSEBUTTONDOWN button) r s = Some (focus_set None s)"
      using h by (simp add: handle_event_def)
    with cleared show ?thesis by simp
  qed
  from hit_case none_case scene_case show ?thesis by blast
qed

text \<open>
  In the example the point (90, 90) hits view 2, whose frame starts at (80, 80), the
  point (300, 300) hits nothing and (200, 200) hits the scene; view 1 has the focus.
\<close>

theorem press_dispatch_witness:
  "hit demo_views (90, 90) = Some 2 \<and> \<not> is_scene demo_views 2 \<and>
   (\<exists>s'. handle_event demo_views (MOUSEBUTTONDOWN 1) (90, 90) pressed = Some s' \<and>
         focus_view s' = Some 2 \<and> down_in_view s' = Some 2 \<and>
         calls s' = calls pressed @ [(1, Blurred), (2, Focused), (2, Mouse_down 1 (10, 10))]) \<and>
   hit demo_views (300, 300) = None \<and>
   (\<exists>s'. handle_event demo_views (MOUSEBUTTONDOWN 1) (300, 300) pressed = Some s' \<and>
         focus_view s' = None \<and> filter is_press (delivered pressed s') = []) \<and>
   hit demo_views (200, 200) = Some 0 \<and> is_scene demo_views 0 \<and>
   (\<exists>s'. handle_event demo_views (MOUSEBUTTONDOWN 1) (200, 200) pressed = Some s' \<and>
         focus_view s' = None \<and> filter is_press (delivered pressed s') = [])"
proof -
  have h1: "hit demo_views (90, 90) = Some 2 \<and> \<not> is_scene demo_views 2"
    by (simp add: demo_views_def)
  have h2: "hit demo_views (300, 300) = None"
    by (simp add: demo_views_def)
  have h3: "hit demo_views (200, 200) = Some 0 \<and> is_scene demo_views 0"
    by (simp add: demo_views_def)
  have fw: "from_window demo_views 2 (90, 90) = (10, 10)"
    by (simp add: demo_views_def)
  have fs: "calls (focus_set (Some 2) pressed) @ [(2, Mouse_down 1 (10, 10))]
            = calls pressed @ [(1, Blurred), (2, Focused), (2, Mouse_down 1 (10, 10))]"
    by (simp add: focus_set_def pressed_def deliver_def)
  note pd = press_dispatch [of demo_views "(90, 90)" 2 1 pressed "(300, 300)" "(200, 200)" 0,
      unfolded fw fs]
  from pd h1 h2 h3 show ?thesis by blast
qed

text \<open>
  C3, as the code and the focus manager of the specification have it. On a pointer-up
  event while view \<open>a\<close> is the pressed view and the hit test at the mouse point gives
  another view \<open>b\<close>: \<open>a\<close> gets \<^verbatim>\<open>blurred\<close> from the loop, then \<^verbatim>\<open>focus.set(None)\<close> blurs
  the view that has the focus, if any, and clears the focus, then \<open>b\<close> gets \<^verbatim>\<open>mouse_up\<close>
  with the button and the point translated by its \<^verbatim>\<open>from_window\<close>; these are all the
  calls, so \<open>a\<close> gets no \<^verbatim>\<open>mouse_up\<close>, and it is blurred twice when it has the focus and
  once when it has not. After any pointer-up event, a view hit or not, no view is recorded
  as pressed.
\<close>

theorem release_on_other_view:
  assumes "down_in_view s = Some a" and "hit w p = Some b" and "b \<noteq> a"
  shows "(\<exists>s'. handle_event w (MOUSEBUTTONUP button) p s = Some s' \<and>
              delivered s s' =
                [(a, Blurred)] @ (case focus_view s of None \<Rightarrow> [] | Some f \<Rightarrow> [(f, Blurred)]) @
                [(b, Mouse_up button (from_window w b p))] \<and>
              count_list (delivered s s') (a, Blurred) = (if focus_view s = Some a then 2 else 1) \<and>
              focus_view s' = None \<and> down_in_view s' = None) \<and>
         (\<exists>s'. handle_event w0 (MOUSEBUTTONUP button0) p0 s0 = Some s' \<and> down_in_view s' = None)"
proof -
  let ?s' = "(deliver b (Mouse_up button (from_window w b p))
               (focus_set None (deliver a Blurred s)))\<lparr>down_in_view := None\<rparr>"
  have ev: "handle_event w (MOUSEBUTTONUP button) p s = Some ?s'"
    using assms by (simp add: handle_event_def)
  have d: "delivered s ?s' =
             [(a, Blurred)] @ (case focus_view s of None \<Rightarrow> [] | Some f \<Rightarrow> [(f, Blurred)]) @
             [(b, Mouse_up button (from_window w b p))]"
    by (simp add: delivered_def calls_deliver calls_focus_set_None focus_view_deliver)
  have n: "count_list (delivered s ?s') (a, Blurred) = (if focus_view s = Some a then 2 else 1)"
    unfolding d by (simp split: option.splits)
  have f: "focus_view ?s' = None" "down_in_view ?s' = None"
    by (simp_all add: focus_view_deliver focus_view_focus_set)
  have any: "\<exists>s'. handle_event w0 (MOUSEBUTTONUP button0) p0 s0 = Some s' \<and> down_in_view s' = None"
    by (simp add: handle_event_def Let_def)
  from ev d n f any show ?thesis by blast
qed

text \<open>View 1 is pressed and focused; the release at (90, 90) hits view 2.\<close>

theorem release_on_other_view_witness:
  "down_in_view pressed = Some 1 \<and> hit demo_views (90, 90) = Some 2 \<and> (2::nat) \<noteq> 1 \<and>
   (\<exists>s'. handle_event demo_views (MOUSEBUTTONUP 1) (90, 90) pressed = Some s' \<and>
         delivered pressed s' = [(1, Blurred), (1, Blurred), (2, Mouse_up 1 (10, 10))] \<and>
         count_list (delivered pressed s') (1, Blurred) = 2 \<and>
         focus_view s' = None \<and> down_in_view s' = None)"
proof -
  have h1: "down_in_view pressed = Some 1"
    by (simp add: pressed_def)
  have h2: "hit demo_views (90, 90) = Some 2"
    by (simp add: demo_views_def)
  have h3: "(2::nat) \<noteq> 1"
    by simp
  have fw: "from_window demo_views 2 (90, 90) = (10, 10)"
    by (simp add: demo_views_def)
  have fv: "[(1, Blurred)] @ (case focus_view pressed of None \<Rightarrow> [] | Some f \<Rightarrow> [(f, Blurred)]) @
            [(2, Mouse_up 1 (10, 10))]
            = [(1, Blurred), (1, Blurred), (2, Mouse_up 1 (10, 10))]"
    by (simp add: pressed_def)
  have fc: "(if focus_view pressed = Some 1 then 2 else 1) = (2::nat)"
    by (simp add: pressed_def)
  note rel = release_on_other_view [OF h1 h2 h3, of 1 demo_views 1 "(90, 90)" pressed,
      unfolded fw fv fc]
  from rel h1 h2 h3 show ?thesis by blast
qed

text \<open>
  C3, as stated, fails. From the idle loop, a press at (10, 10) hits view 1, which gets the
  focus; the release at (90, 90) hits view 2, and view 1 is blurred by the loop and again
  by \<^verbatim>\<open>focus.set(None)\<close>: not exactly once.
\<close>

theorem release_elsewhere_blurs_twice:
  "handle_event demo_views (MOUSEBUTTONDOWN 1) (10, 10) idle = Some pressed \<and>
   down_in_view pressed = Some 1 \<and> hit demo_views (90, 90) = Some 2 \<and>
   handle_event demo_views (MOUSEBUTTONUP 1) (90, 90) pressed = Some released \<and>
   count_list (delivered pressed released) (1, Blurred) \<noteq> 1"
  by (simp add: handle_event_def demo_views_def idle_def pressed_def released_def
      focus_set_def deliver_def delivered_def)

section \<open>Theme activation\<close>

text \<open>
  C6 at a concrete run. The theme module is imported while no root is active, then view 7
  becomes the active root, then \<^verbatim>\<open>use_theme\<close> is called: the theme is installed as
  current, view 7 is the active root, and \<^verbatim>\<open>stylize\<close> has not been called, because
  \<^verbatim>\<open>current_view\<close> still holds what \<^verbatim>\<open>view.current\<close> was at the import.
\<close>

theorem use_theme_misses_active_root:
  "theme_current (use_theme demo_theme (view_set_current (Some 7) (import_theme at_import)))
   = Some demo_theme \<and>
   view_current (use_theme demo_theme (view_set_current (Some 7) (import_theme at_import)))
   = Some 7 \<and>
   stylize_calls (use_theme demo_theme (view_set_current (Some 7) (import_theme at_import)))
   = []"
  by (simp add: use_theme_def view_set_current_def import_theme_def at_import_def)

end
